theory Spec2Isabelle
  imports Complex_Main
begin

section \<open>The pendulum model of \<open>rsbook_code/control/examples/pendulum.py\<close>\<close>

text \<open>
  The class \<open>Pendulum\<close> is embedded over the real numbers: a finite Python float is a
  \<open>real\<close>, \<open>math.cos\<close> is \<open>cos\<close> and \<open>math.pi\<close> is \<open>pi\<close>; rounding is left out, and a
  computation that overflows to \<open>inf\<close> or \<open>nan\<close> is outside the model. Every exception the
  methods can raise on the modelled inputs is a value of \<open>py_error\<close>, and a method that can
  raise returns \<open>py_error + 'a\<close> with \<open>Inl\<close> for the exception.
\<close>

datatype py_error = AssertionError | ZeroDivisionError | ValueError | IndexError | TypeError

text \<open>
  The attributes set by \<open>__init__\<close>. The three optional ones start as Python's \<open>None\<close>,
  which is \<open>None\<close> here, distinct from \<open>Some 0\<close>.
\<close>

record Pendulum =
  m :: real
  L :: real
  g :: real
  viscosity :: "real option"
  umin :: "real option"
  umax :: "real option"

definition init :: "real \<Rightarrow> real \<Rightarrow> real \<Rightarrow> Pendulum" where
  "init m0 L0 g0 =
     \<lparr>m = m0, L = L0, g = g0, viscosity = None, umin = None, umax = None\<rparr>"

text \<open>The constructor's defaults: \<open>m=1.\<close>, \<open>L=1.\<close>, \<open>g=9.8\<close>.\<close>

definition default_pendulum :: Pendulum where
  "default_pendulum = init 1 1 (98 / 10)"

definition stateDimension :: "Pendulum \<Rightarrow> nat" where
  "stateDimension self = 2"

definition controlDimension :: "Pendulum \<Rightarrow> nat" where
  "controlDimension self = 1"

subsection \<open>Forward and inverse dynamics\<close>

text \<open>
  \<open>dynamics\<close> divides by \<open>L*m\<close>; Python's float division raises \<open>ZeroDivisionError\<close> when
  the divisor is zero. The unused local \<open>s = math.sin(theta)\<close> has no effect and is left out.
\<close>

definition dynamics :: "Pendulum \<Rightarrow> real \<Rightarrow> real \<Rightarrow> real \<Rightarrow> py_error + real" where
  "dynamics self theta dtheta u =
     (let c = cos theta;
          visc = (case viscosity self of None \<Rightarrow> 0 | Some k \<Rightarrow> - k * dtheta)
      in if L self * m self = 0 then Inl ZeroDivisionError
         else Inr ((u + visc - m self * c * g self) / (L self * m self)))"

definition inverse_dynamics :: "Pendulum \<Rightarrow> real \<Rightarrow> real \<Rightarrow> real \<Rightarrow> real" where
  "inverse_dynamics self theta dtheta ddtheta =
     (let c = cos theta;
          visc = (case viscosity self of None \<Rightarrow> 0 | Some k \<Rightarrow> - k * dtheta)
      in L self * m self * (ddtheta - visc + m self * c * g self))"

subsection \<open>The state derivative\<close>

text \<open>
  The control handed to \<open>derivative\<close> is a Python number or a sequence of numbers.
  \<open>isinstance(u,(int,float))\<close> holds of a \<open>Scalar\<close>, \<open>hasattr(u,'__iter__')\<close> of a \<open>Seq\<close>.
  The state \<open>x\<close> is a sequence, and the returned \<open>np.array([dq,ddq])\<close> a two-element list.
\<close>

datatype control = Scalar real | Seq "real list"

definition derivative :: "Pendulum \<Rightarrow> real list \<Rightarrow> control \<Rightarrow> py_error + real list" where
  "derivative self x u =
     (if length x \<noteq> 2 then Inl AssertionError
      else if \<not> (case u of Scalar _ \<Rightarrow> True | Seq us \<Rightarrow> length us = 1) then Inl AssertionError
      else
        (let q = x ! 0;
             dq = x ! 1;
             u' = (case u of Scalar v \<Rightarrow> v | Seq us \<Rightarrow> us ! 0)
         in case dynamics self q dq u' of
              Inl e \<Rightarrow> Inl e
            | Inr ddq \<Rightarrow> Inr [dq, ddq]))"


subsection \<open>The remainder\<close>

text \<open>
  Python's \<open>a % b\<close> on floats takes the sign of the divisor. \<open>py_mod\<close> is its exact value
  for a divisor \<open>b > 0\<close>. The float operation rounds: for a negative dividend it adds the
  divisor to a negative remainder, and the rounded sum can be the divisor itself. What it
  guarantees for a finite dividend and a positive divisor is \<open>rem_in_range\<close>: the result
  lies between 0 and the divisor, both included. The loop and \<open>integrate\<close> are therefore
  modelled with the remainder operation \<open>md\<close> as a parameter (\<open>simulate_loop_rem\<close>,
  \<open>integrate_rem\<close>); \<open>simulate_loop\<close>, \<open>simulate\<close> and \<open>integrate\<close> are their instances with
  the exact remainder. The only divisor in the source is \<open>math.pi*2\<close>.
\<close>

definition py_mod :: "real \<Rightarrow> real \<Rightarrow> real" where
  "py_mod a b = a - b * of_int \<lfloor>a / b\<rfloor>"

definition rem_in_range :: "(real \<Rightarrow> real \<Rightarrow> real) \<Rightarrow> bool" where
  "rem_in_range md \<longleftrightarrow> (\<forall>a b. 0 < b \<longrightarrow> 0 \<le> md a b \<and> md a b \<le> b)"

subsection \<open>Euler simulation\<close>

text \<open>
  The dictionary \<open>res\<close> has the fixed keys \<open>'t','x','q','dq','u','ddq'\<close>, each holding a
  list; it is a record with one list per key.
\<close>

record trace =
  res_t :: "real list"
  res_x :: "real list list"
  res_q :: "real list"
  res_dq :: "real list"
  res_u :: "real list"
  res_ddq :: "real list"

definition empty_trace :: trace where
  "empty_trace = \<lparr>res_t = [], res_x = [], res_q = [], res_dq = [], res_u = [], res_ddq = []\<rparr>"

type_synonym policy = "real \<Rightarrow> real \<Rightarrow> real \<Rightarrow> real"

text \<open>
  The \<open>while t < T\<close> loop, with the loop variables \<open>t\<close>, \<open>q\<close>, \<open>dq\<close> and \<open>res\<close> as
  arguments. The loop need not end (\<open>dt \<le> 0\<close> with \<open>0 < T\<close>), so the result is an option:
  \<open>None\<close> is a loop that never returns, \<open>Some (Inl e)\<close> an exception raised by
  \<open>dynamics\<close>, \<open>Some (Inr res)\<close> the returned trace.
\<close>

partial_function (option) simulate_loop_rem ::
  "(real \<Rightarrow> real \<Rightarrow> real) \<Rightarrow> Pendulum \<Rightarrow> policy \<Rightarrow> real \<Rightarrow> real \<Rightarrow> real \<Rightarrow> real \<Rightarrow> real \<Rightarrow> trace
     \<Rightarrow> (py_error + trace) option"
where
  "simulate_loop_rem md self ufunc dt T t q dq res =
     (if t < T then
        (let u0 = ufunc t q dq;
             u1 = (case umin self of None \<Rightarrow> u0 | Some lo \<Rightarrow> max u0 lo);
             u = (case umax self of None \<Rightarrow> u1 | Some hi \<Rightarrow> min u1 hi)
         in case dynamics self q dq u of
              Inl e \<Rightarrow> Some (Inl e)
            | Inr ddq \<Rightarrow>
                simulate_loop_rem md self ufunc dt T (t + dt) (md (q + dt * dq) (pi * 2))
                  (dq + dt * ddq)
                  (res\<lparr>res_t := res_t res @ [t],
                       res_q := res_q res @ [q],
                       res_dq := res_dq res @ [dq],
                       res_ddq := res_ddq res @ [ddq],
                       res_x := res_x res @ [[q, dq]],
                       res_u := res_u res @ [u]\<rparr>))
      else Some (Inr res))"

definition simulate_rem ::
  "(real \<Rightarrow> real \<Rightarrow> real) \<Rightarrow> Pendulum \<Rightarrow> real \<Rightarrow> real \<Rightarrow> policy \<Rightarrow> real \<Rightarrow> real
     \<Rightarrow> (py_error + trace) option" where
  "simulate_rem md self q0 dq0 ufunc dt T =
     simulate_loop_rem md self ufunc dt T 0 q0 dq0 empty_trace"

definition simulate_loop ::
  "Pendulum \<Rightarrow> policy \<Rightarrow> real \<Rightarrow> real \<Rightarrow> real \<Rightarrow> real \<Rightarrow> real \<Rightarrow> trace \<Rightarrow> (py_error + trace) option"
where
  "simulate_loop = simulate_loop_rem py_mod"

definition simulate ::
  "Pendulum \<Rightarrow> real \<Rightarrow> real \<Rightarrow> policy \<Rightarrow> real \<Rightarrow> real \<Rightarrow> (py_error + trace) option" where
  "simulate self q0 dq0 ufunc dt T = simulate_loop self ufunc dt T 0 q0 dq0 empty_trace"

subsection \<open>State-space addition\<close>

text \<open>
  \<open>integrate\<close> computes \<open>x+dx\<close> and then assigns to index 0, and both depend on what \<open>x\<close>
  and \<open>dx\<close> are. The values modelled are Python lists and tuples of numbers, and
  one-dimensional numpy arrays of an integer or a float dtype. A number is a Python
  \<open>int\<close> or \<open>float\<close>. The integers of an array are unbounded here: the wrap-around of
  numpy's fixed-width integers is left out.
\<close>

datatype num = PyInt int | PyFloat real

datatype vec = PyList "num list" | PyTuple "num list" | IntArray "int list" | FloatArray "real list"

fun num_val :: "num \<Rightarrow> real" where
  "num_val (PyInt i) = of_int i"
| "num_val (PyFloat r) = r"

text \<open>The integers of a sequence that holds only \<open>int\<close>s.\<close>

fun ints_of :: "num list \<Rightarrow> int list option" where
  "ints_of [] = Some []"
| "ints_of (PyInt i # ns) = (case ints_of ns of None \<Rightarrow> None | Some js \<Rightarrow> Some (i # js))"
| "ints_of (PyFloat r # ns) = None"

text \<open>
  \<open>np.asarray\<close> on a sequence of numbers: an integer array when the sequence is not empty
  and holds only \<open>int\<close>s, a float array otherwise. An array is left as it is.
\<close>

definition array_of :: "num list \<Rightarrow> vec" where
  "array_of ns =
     (case ints_of ns of
        None \<Rightarrow> FloatArray (map num_val ns)
      | Some js \<Rightarrow> if js = [] then FloatArray [] else IntArray js)"

fun asarray :: "vec \<Rightarrow> vec" where
  "asarray (PyList ns) = array_of ns"
| "asarray (PyTuple ns) = array_of ns"
| "asarray (IntArray a) = IntArray a"
| "asarray (FloatArray a) = FloatArray a"

text \<open>
  Elementwise addition of one-dimensional arrays with numpy's broadcasting: equal lengths
  are added elementwise, an array of one element is added to every element of the other,
  any other pair of shapes raises \<open>ValueError\<close>.
\<close>

definition broadcast_add :: "'a::plus list \<Rightarrow> 'a list \<Rightarrow> py_error + 'a list" where
  "broadcast_add x dx =
     (if length x = length dx then Inr (map2 (+) x dx)
      else if length dx = 1 then Inr (map (\<lambda>a. a + dx ! 0) x)
      else if length x = 1 then Inr (map (\<lambda>b. x ! 0 + b) dx)
      else Inl ValueError)"

fun floats :: "vec \<Rightarrow> real list" where
  "floats (IntArray a) = map of_int a"
| "floats (FloatArray a) = a"
| "floats (PyList ns) = map num_val ns"
| "floats (PyTuple ns) = map num_val ns"

text \<open>The sum of two arrays: an integer array when both are, a float array otherwise.\<close>

fun array_add :: "vec \<Rightarrow> vec \<Rightarrow> py_error + vec" where
  "array_add (IntArray a) (IntArray b) =
     (case broadcast_add a b of Inl e \<Rightarrow> Inl e | Inr c \<Rightarrow> Inr (IntArray c))"
| "array_add a b =
     (case broadcast_add (floats a) (floats b) of Inl e \<Rightarrow> Inl e | Inr c \<Rightarrow> Inr (FloatArray c))"

text \<open>
  Python's \<open>x+dx\<close>: two lists or two tuples are concatenated, a list and a tuple raise
  \<open>TypeError\<close>, and when one operand is an array the other is converted to an array and
  the two are added elementwise.
\<close>

fun py_add :: "vec \<Rightarrow> vec \<Rightarrow> py_error + vec" where
  "py_add (PyList a) (PyList b) = Inr (PyList (a @ b))"
| "py_add (PyTuple a) (PyTuple b) = Inr (PyTuple (a @ b))"
| "py_add (PyList a) (PyTuple b) = Inl TypeError"
| "py_add (PyTuple a) (PyList b) = Inl TypeError"
| "py_add x dx = array_add (asarray x) (asarray dx)"

text \<open>Storing a float into an integer array drops its fractional part.\<close>

definition trunc :: "real \<Rightarrow> int" where
  "trunc r = (if 0 \<le> r then \<lfloor>r\<rfloor> else \<lceil>r\<rceil>)"

text \<open>
  \<open>xnext[0] = xnext[0]%(math.pi*2)\<close>: reading index 0 of an empty sequence raises
  \<open>IndexError\<close>; the remainder is a float; a tuple refuses the assignment with
  \<open>TypeError\<close>; an integer array stores the truncated value.
\<close>

fun wrap_first :: "(real \<Rightarrow> real \<Rightarrow> real) \<Rightarrow> vec \<Rightarrow> py_error + vec" where
  "wrap_first md (PyList ns) =
     (if ns = [] then Inl IndexError
      else Inr (PyList (ns[0 := PyFloat (md (num_val (ns ! 0)) (pi * 2))])))"
| "wrap_first md (PyTuple ns) = (if ns = [] then Inl IndexError else Inl TypeError)"
| "wrap_first md (IntArray a) =
     (if a = [] then Inl IndexError
      else Inr (IntArray (a[0 := trunc (md (of_int (a ! 0)) (pi * 2))])))"
| "wrap_first md (FloatArray a) =
     (if a = [] then Inl IndexError
      else Inr (FloatArray (a[0 := md (a ! 0) (pi * 2)])))"

definition integrate_rem ::
  "(real \<Rightarrow> real \<Rightarrow> real) \<Rightarrow> Pendulum \<Rightarrow> vec \<Rightarrow> vec \<Rightarrow> py_error + vec" where
  "integrate_rem md self x dx =
     (case py_add x dx of
        Inl e \<Rightarrow> Inl e
      | Inr xnext \<Rightarrow> wrap_first md xnext)"

definition integrate :: "Pendulum \<Rightarrow> vec \<Rightarrow> vec \<Rightarrow> py_error + vec" where
  "integrate = integrate_rem py_mod"

subsection \<open>Notions used to state the properties\<close>

text \<open>
  Clamping as the specification words it: each bound that is set is applied, the lower
  one first.
\<close>

definition clamp_spec :: "real option \<Rightarrow> real option \<Rightarrow> real \<Rightarrow> real" where
  "clamp_spec lo hi u =
     (case (lo, hi) of
        (None, None) \<Rightarrow> u
      | (Some a, None) \<Rightarrow> max u a
      | (None, Some b) \<Rightarrow> min u b
      | (Some a, Some b) \<Rightarrow> min (max u a) b)"

text \<open>The trace with one more sample \<open>(t, q, dq, ddq, x=(q,dq), u)\<close> at its end.\<close>

definition record_sample :: "trace \<Rightarrow> real \<Rightarrow> real \<Rightarrow> real \<Rightarrow> real \<Rightarrow> real \<Rightarrow> trace" where
  "record_sample res t q dq ddq u =
     \<lparr>res_t = res_t res @ [t], res_x = res_x res @ [[q, dq]], res_q = res_q res @ [q],
      res_dq = res_dq res @ [dq], res_u = res_u res @ [u], res_ddq = res_ddq res @ [ddq]\<rparr>"

text \<open>
  A control respects the bounds of a model: it is at most \<open>umax\<close> when that is set, and
  at least \<open>umin\<close> when that is set and does not exceed a set \<open>umax\<close>.
\<close>

definition within_bounds :: "Pendulum \<Rightarrow> real \<Rightarrow> bool" where
  "within_bounds P u \<longleftrightarrow>
     (case umax P of None \<Rightarrow> True | Some hi \<Rightarrow> u \<le> hi) \<and>
     (case umin P of
        None \<Rightarrow> True
      | Some lo \<Rightarrow> (case umax P of None \<Rightarrow> lo \<le> u | Some hi \<Rightarrow> hi < lo \<or> lo \<le> u))"

text \<open>
  The samples of a run, one record per iteration, and the trace that holds them after
  the samples it already had.
\<close>

record sample =
  s_t :: real
  s_q :: real
  s_dq :: real
  s_ddq :: real
  s_u :: real

definition add_samples :: "trace \<Rightarrow> sample list \<Rightarrow> trace" where
  "add_samples res ss =
     \<lparr>res_t = res_t res @ map s_t ss, res_x = res_x res @ map (\<lambda>s. [s_q s, s_dq s]) ss,
      res_q = res_q res @ map s_q ss, res_dq = res_dq res @ map s_dq ss,
      res_u = res_u res @ map s_u ss, res_ddq = res_ddq res @ map s_ddq ss\<rparr>"

text \<open>
  The samples that the iterations produce from the loop variables \<open>t\<close>, \<open>q\<close>, \<open>dq\<close>: none
  when \<open>t < T\<close> fails; otherwise the first sample holds \<open>t\<close>, \<open>q\<close>, \<open>dq\<close>, the clamped
  answer of the policy and the forward dynamics, and the others follow from the updated
  variables.
\<close>

fun euler_chain ::
  "(real \<Rightarrow> real \<Rightarrow> real) \<Rightarrow> Pendulum \<Rightarrow> policy \<Rightarrow> real \<Rightarrow> real \<Rightarrow> real \<Rightarrow> real \<Rightarrow> real
     \<Rightarrow> sample list \<Rightarrow> bool" where
  "euler_chain md P f dt T t q dq [] = (\<not> t < T)"
| "euler_chain md P f dt T t q dq (s # ss) =
     (t < T \<and> s_t s = t \<and> s_q s = q \<and> s_dq s = dq \<and>
      s_u s = clamp_spec (umin P) (umax P) (f t q dq) \<and>
      dynamics P q dq (s_u s) = Inr (s_ddq s) \<and>
      euler_chain md P f dt T (t + dt) (md (q + dt * dq) (pi * 2)) (dq + dt * s_ddq s) ss)"

text \<open>
  Concrete inputs: the default pendulum with torque bounds \<open>umin = -1\<close>, \<open>umax = 1\<close>,
  two fixed policies, torque 0 and torque 5, and the trace of two samples of the default
  pendulum started at \<open>q0 = 0\<close>, \<open>dq0 = -1\<close> under torque 0 with step 1 and horizon 2.
\<close>

definition bounded_pendulum :: Pendulum where
  "bounded_pendulum = default_pendulum\<lparr>umin := Some (- 1), umax := Some 1\<rparr>"

definition zero_policy :: policy where
  "zero_policy t q dq = 0"

definition five_policy :: policy where
  "five_policy t q dq = 5"

definition wrapping_trace :: trace where
  "wrapping_trace =
     \<lparr>res_t = [0, 1], res_x = [[0, - 1], [2 * pi - 1, - 10.8]],
      res_q = [0, 2 * pi - 1], res_dq = [- 1, - 10.8], res_u = [0, 0],
      res_ddq = [- 9.8, - (cos (2 * pi - 1) * 9.8)]\<rparr>"

section \<open>Auxiliary facts\<close>

subsection \<open>The remainder\<close>

lemma py_mod_range:
  assumes b: "0 < b"
  shows "0 \<le> py_mod a b \<and> py_mod a b < b"
proof -
  from floor_divide_lower [OF b, of a] have "b * of_int \<lfloor>a / b\<rfloor> \<le> a"
    by (simp add: mult.commute)
  moreover from floor_divide_upper [OF b, of a] have "a < b * of_int \<lfloor>a / b\<rfloor> + b"
    by (simp add: algebra_simps)
  ultimately show ?thesis by (simp add: py_mod_def)
qed

lemma py_mod_in_range: "rem_in_range py_mod"
  unfolding rem_in_range_def using py_mod_range by (simp add: less_imp_le)

lemma py_mod_neg_one: "py_mod (- 1) (pi * 2) = 2 * pi - 1"
proof -
  have "1 \<le> pi * 2" using pi_ge_two by simp
  then have "\<lfloor>- 1 / (pi * 2)\<rfloor> = - 1"
    by (simp add: floor_eq_iff field_simps)
  then show ?thesis by (simp add: py_mod_def)
qed

lemma rem_two_pi:
  assumes "rem_in_range md"
  shows "0 \<le> md a (pi * 2) \<and> md a (pi * 2) \<le> 2 * pi"
proof -
  have "0 < pi * 2" by simp
  with assms have "0 \<le> md a (pi * 2) \<and> md a (pi * 2) \<le> pi * 2"
    unfolding rem_in_range_def by blast
  then show ?thesis by (simp add: mult.commute)
qed

subsection \<open>Clamping\<close>

lemma clamp_spec_within_bounds: "within_bounds P (clamp_spec (umin P) (umax P) u0)"
  by (auto simp: within_bounds_def clamp_spec_def split: option.splits)

subsection \<open>The loop of \<open>simulate\<close>\<close>

lemma simulate_loop_rem_exit:
  "\<not> t < T \<Longrightarrow> simulate_loop_rem md P f dt T t q dq res = Some (Inr res)"
  by (subst simulate_loop_rem.simps) simp

lemma simulate_loop_rem_unfold:
  assumes "t < T"
  shows "simulate_loop_rem md P f dt T t q dq res =
           (case dynamics P q dq (clamp_spec (umin P) (umax P) (f t q dq)) of
              Inl e \<Rightarrow> Some (Inl e)
            | Inr ddq \<Rightarrow>
                simulate_loop_rem md P f dt T (t + dt) (md (q + dt * dq) (pi * 2)) (dq + dt * ddq)
                  (record_sample res t q dq ddq (clamp_spec (umin P) (umax P) (f t q dq))))"
  using assms
  by (subst simulate_loop_rem.simps, cases res)
     (simp add: clamp_spec_def record_sample_def Let_def split: option.splits sum.splits)

lemma simulate_loop_rem_advance:
  assumes "t < T" and "L P * m P \<noteq> 0"
  shows "\<exists>q' dq' ddq u. simulate_loop_rem md P f dt T t q dq res =
           simulate_loop_rem md P f dt T (t + dt) q' dq' (record_sample res t q dq ddq u)"
  using assms
  by (auto simp: simulate_loop_rem_unfold dynamics_def Let_def)

text \<open>
  With a positive step the loop ends: the number of steps left, \<open>\<lceil>(T - t) / dt\<rceil>\<close>,
  goes down by one in each iteration.
\<close>

lemma steps_left_decrease:
  assumes "0 < dt" and "Suc n = nat \<lceil>(T - t) / dt\<rceil>"
  shows "n = nat \<lceil>(T - (t + dt)) / dt\<rceil>"
proof -
  have "(T - (t + dt)) / dt = (T - t) / dt - 1"
    using assms(1) by (simp add: field_simps)
  with assms(2) show ?thesis by simp
qed

lemma steps_left_zero:
  assumes "0 < dt" and "0 = nat \<lceil>(T - t) / dt\<rceil>"
  shows "\<not> t < T"
proof -
  from assms(2) have "(T - t) / dt \<le> 0" by simp
  with assms(1) show ?thesis by (simp add: divide_le_0_iff)
qed

lemma simulate_loop_rem_returns:
  assumes dt: "0 < dt" and nz: "L P * m P \<noteq> 0"
  shows "\<exists>res'. simulate_loop_rem md P f dt T t q dq res = Some (Inr res')"
proof (induction "nat \<lceil>(T - t) / dt\<rceil>" arbitrary: t q dq res)
  case 0
  with dt have "\<not> t < T" by (rule steps_left_zero)
  then show ?case by (simp add: simulate_loop_rem_exit)
next
  case (Suc n)
  show ?case
  proof (cases "t < T")
    case False
    then show ?thesis by (simp add: simulate_loop_rem_exit)
  next
    case True
    from dt Suc.hyps(2) have n: "n = nat \<lceil>(T - (t + dt)) / dt\<rceil>"
      by (rule steps_left_decrease)
    from simulate_loop_rem_advance [OF True nz] obtain q' dq' ddq u where
      "simulate_loop_rem md P f dt T t q dq res =
         simulate_loop_rem md P f dt T (t + dt) q' dq' (record_sample res t q dq ddq u)"
      by blast
    with Suc.hyps(1) [OF n] show ?thesis by simp
  qed
qed

text \<open>
  An induction rule for the traces the loop returns: a property of the loop variables and
  the returned trace holds at the start when it holds at the exit and is carried backwards
  over every iteration.
\<close>

lemma simulate_loop_rem_trace_induct [consumes 1, case_names base step]:
  assumes run: "simulate_loop_rem md P f dt T t q dq res = Some (Inr res')"
    and base: "\<And>t q dq. \<not> t < T \<Longrightarrow> Q t q dq res' res'"
    and step: "\<And>t q dq res u ddq. t < T \<Longrightarrow> u = clamp_spec (umin P) (umax P) (f t q dq) \<Longrightarrow>
                 dynamics P q dq u = Inr ddq \<Longrightarrow>
                 Q (t + dt) (md (q + dt * dq) (pi * 2)) (dq + dt * ddq)
                   (record_sample res t q dq ddq u) res' \<Longrightarrow>
                 Q t q dq res res'"
  shows "Q t q dq res res'"
proof -
  have "simulate_loop_rem md' P' f' dt' T' t q dq res = Some y \<Longrightarrow>
          md' = md \<Longrightarrow> P' = P \<Longrightarrow> f' = f \<Longrightarrow> dt' = dt \<Longrightarrow> T' = T \<Longrightarrow> y = Inr res' \<Longrightarrow>
          Q t q dq res res'"
    for md' P' f' dt' T' t q dq res y
  proof (induction md' P' f' dt' T' t q dq res y
      rule: simulate_loop_rem.raw_induct [rotated 1, consumes 1])
    case (1 sl md' P' f' dt' T' t q dq res y)
    show ?case
    proof (cases "t < T")
      case False
      with 1 have "res = res'" by simp
      with False base show ?thesis by simp
    next
      case True
      let ?u = "clamp_spec (umin P) (umax P) (f t q dq)"
      from True 1(2-) obtain ddq where d: "dynamics P q dq ?u = Inr ddq"
        and r: "sl md P f dt T (t + dt) (md (q + dt * dq) (pi * 2)) (dq + dt * ddq)
                  (record_sample res t q dq ddq ?u) = Some y"
        by (cases res)
           (auto simp: clamp_spec_def record_sample_def Let_def split: option.splits sum.splits)
      from 1(1) [OF r] 1(3-)
      have "Q (t + dt) (md (q + dt * dq) (pi * 2)) (dq + dt * ddq)
              (record_sample res t q dq ddq ?u) res'"
        by simp
      from step [OF True refl d this] show ?thesis .
    qed
  qed
  from this [OF run] show ?thesis by simp
qed

lemma simulate_loop_rem_u_bounded:
  assumes "simulate_loop_rem md P f dt T t q dq res = Some (Inr res')"
  shows "\<forall>u\<in>set (res_u res'). u \<in> set (res_u res) \<or> within_bounds P u"
  using assms
proof (induction rule: simulate_loop_rem_trace_induct)
  case (base t q dq)
  show ?case by simp
next
  case (step t q dq res u ddq)
  then show ?case
    by (auto simp: record_sample_def clamp_spec_within_bounds)
qed

text \<open>The returned trace holds the samples of the iterations after those it had.\<close>

lemma add_samples_Nil: "add_samples res [] = res"
  by (cases res) (simp add: add_samples_def)

lemma add_samples_Cons:
  "add_samples res (s # ss) =
     add_samples (record_sample res (s_t s) (s_q s) (s_dq s) (s_ddq s) (s_u s)) ss"
  by (simp add: add_samples_def record_sample_def)

lemma simulate_loop_rem_chain:
  assumes "simulate_loop_rem md P f dt T t q dq res = Some (Inr res')"
  shows "\<exists>ss. res' = add_samples res ss \<and> euler_chain md P f dt T t q dq ss"
  using assms
proof (induction rule: simulate_loop_rem_trace_induct)
  case (base t q dq)
  then have "res' = add_samples res' [] \<and> euler_chain md P f dt T t q dq []"
    by (simp add: add_samples_Nil)
  then show ?case by blast
next
  case (step t q dq res u ddq)
  then obtain ss where ss: "res' = add_samples (record_sample res t q dq ddq u) ss"
    "euler_chain md P f dt T (t + dt) (md (q + dt * dq) (pi * 2)) (dq + dt * ddq) ss"
    by blast
  let ?s = "\<lparr>s_t = t, s_q = q, s_dq = dq, s_ddq = ddq, s_u = u\<rparr>"
  from ss(1) have "res' = add_samples res (?s # ss)"
    by (simp add: add_samples_Cons)
  moreover from step(1-3) ss(2) have "euler_chain md P f dt T t q dq (?s # ss)"
    by simp
  ultimately show ?case by blast
qed

lemma euler_chain_nth:
  assumes "euler_chain md P f dt T t q dq ss" and "i < length ss"
  shows "s_t (ss ! i) < T \<and>
         s_u (ss ! i) =
           clamp_spec (umin P) (umax P) (f (s_t (ss ! i)) (s_q (ss ! i)) (s_dq (ss ! i))) \<and>
         dynamics P (s_q (ss ! i)) (s_dq (ss ! i)) (s_u (ss ! i)) = Inr (s_ddq (ss ! i))"
  using assms
proof (induction ss arbitrary: t q dq i)
  case Nil
  then show ?case by simp
next
  case (Cons s ss)
  show ?case
  proof (cases i)
    case 0
    with Cons.prems(1) show ?thesis by auto
  next
    case (Suc j)
    with Cons.prems have "euler_chain md P f dt T (t + dt) (md (q + dt * dq) (pi * 2))
        (dq + dt * s_ddq s) ss" and "j < length ss"
      by simp_all
    from Cons.IH [OF this] Suc show ?thesis by auto
  qed
qed

lemma euler_chain_first:
  assumes "euler_chain md P f dt T t q dq ss" and "ss \<noteq> []"
  shows "s_t (ss ! 0) = t \<and> s_q (ss ! 0) = q \<and> s_dq (ss ! 0) = dq"
  using assms by (cases ss) simp_all

lemma euler_chain_link:
  assumes "euler_chain md P f dt T t q dq ss" and "Suc i < length ss"
  shows "s_t (ss ! Suc i) = s_t (ss ! i) + dt \<and>
         s_q (ss ! Suc i) = md (s_q (ss ! i) + dt * s_dq (ss ! i)) (pi * 2) \<and>
         s_dq (ss ! Suc i) = s_dq (ss ! i) + dt * s_ddq (ss ! i)"
  using assms
proof (induction ss arbitrary: t q dq i)
  case Nil
  then show ?case by simp
next
  case (Cons s ss)
  from Cons.prems have next_chain: "euler_chain md P f dt T (t + dt)
      (md (q + dt * dq) (pi * 2)) (dq + dt * s_ddq s) ss"
    and here: "s_t s = t" "s_q s = q" "s_dq s = dq"
    by simp_all
  show ?case
  proof (cases i)
    case 0
    with Cons.prems(2) have "ss \<noteq> []" by auto
    from euler_chain_first [OF next_chain this] here 0 show ?thesis by simp
  next
    case (Suc j)
    with Cons.prems(2) have "Suc j < length ss" by simp
    from Cons.IH [OF next_chain this] Suc show ?thesis by simp
  qed
qed

lemma euler_chain_end:
  assumes "euler_chain md P f dt T t q dq ss"
  shows "\<not> (if ss = [] then t else s_t (ss ! (length ss - 1)) + dt) < T"
  using assms
proof (induction ss arbitrary: t q dq)
  case Nil
  then show ?case by simp
next
  case (Cons s ss)
  from Cons.prems have next_chain: "euler_chain md P f dt T (t + dt)
      (md (q + dt * dq) (pi * 2)) (dq + dt * s_ddq s) ss"
    and here: "s_t s = t"
    by simp_all
  from Cons.IH [OF next_chain] here show ?case
    by (cases ss) simp_all
qed

text \<open>The same facts for the loop with the exact remainder.\<close>

lemma simulate_loop_exit:
  "\<not> t < T \<Longrightarrow> simulate_loop P f dt T t q dq res = Some (Inr res)"
  unfolding simulate_loop_def by (rule simulate_loop_rem_exit)

lemma simulate_loop_unfold:
  assumes "t < T"
  shows "simulate_loop P f dt T t q dq res =
           (case dynamics P q dq (clamp_spec (umin P) (umax P) (f t q dq)) of
              Inl e \<Rightarrow> Some (Inl e)
            | Inr ddq \<Rightarrow>
                simulate_loop P f dt T (t + dt) (py_mod (q + dt * dq) (pi * 2)) (dq + dt * ddq)
                  (record_sample res t q dq ddq (clamp_spec (umin P) (umax P) (f t q dq))))"
  unfolding simulate_loop_def using assms by (rule simulate_loop_rem_unfold)

lemma simulate_loop_advance:
  assumes "t < T" and "L P * m P \<noteq> 0"
  shows "\<exists>q' dq' ddq u. simulate_loop P f dt T t q dq res =
           simulate_loop P f dt T (t + dt) q' dq' (record_sample res t q dq ddq u)"
  unfolding simulate_loop_def using assms by (rule simulate_loop_rem_advance)

lemma simulate_loop_returns:
  assumes "0 < dt" and "L P * m P \<noteq> 0"
  shows "\<exists>res'. simulate_loop P f dt T t q dq res = Some (Inr res')"
  unfolding simulate_loop_def using assms by (rule simulate_loop_rem_returns)

lemma simulate_loop_u_bounded:
  assumes "simulate_loop P f dt T t q dq res = Some (Inr res')"
  shows "\<forall>u\<in>set (res_u res'). u \<in> set (res_u res) \<or> within_bounds P u"
  using assms unfolding simulate_loop_def by (rule simulate_loop_rem_u_bounded)

lemma simulate_u_within_bounds:
  assumes "simulate P q0 dq0 ufunc dt T = Some (Inr res)" and "u \<in> set (res_u res)"
  shows "within_bounds P u"
  using simulate_loop_u_bounded [of P ufunc dt T 0 q0 dq0 empty_trace res] assms
  by (simp add: simulate_def empty_trace_def)

lemma simulate_rem_exact: "simulate_rem py_mod = simulate"
  by (intro ext) (simp add: simulate_rem_def simulate_def simulate_loop_def)

subsection \<open>Runs at concrete inputs\<close>

lemma simulate_bounded_run:
  "simulate bounded_pendulum 0 0 five_policy 1 1 =
     Some (Inr \<lparr>res_t = [0], res_x = [[0, 0]], res_q = [0], res_dq = [0], res_u = [1],
                res_ddq = [- 8.8]\<rparr>)"
  by (simp add: simulate_def simulate_loop_unfold simulate_loop_exit dynamics_def
      clamp_spec_def record_sample_def empty_trace_def bounded_pendulum_def default_pendulum_def
      init_def five_policy_def)

lemma simulate_wrapping_run:
  "simulate_rem py_mod default_pendulum 0 (- 1) zero_policy 1 2 = Some (Inr wrapping_trace)"
  by (simp add: simulate_rem_def simulate_loop_rem_unfold simulate_loop_rem_exit dynamics_def
      clamp_spec_def record_sample_def empty_trace_def default_pendulum_def
      init_def zero_policy_def py_mod_neg_one wrapping_trace_def)

subsection \<open>Forward against inverse dynamics\<close>

text \<open>
  What \<open>inverse_dynamics\<close> returns on the acceleration \<open>dynamics\<close> computed from \<open>u\<close>: the
  torque \<open>u\<close> and a remainder with the factor \<open>1 - L*m\<close>, which vanishes for \<open>L*m = 1\<close>.
\<close>

lemma inverse_after_dynamics:
  assumes "dynamics P theta dtheta u = Inr dd"
  shows "inverse_dynamics P theta dtheta dd =
           u + (1 - L P * m P) *
               ((case viscosity P of None \<Rightarrow> 0 | Some k \<Rightarrow> - k * dtheta) - m P * cos theta * g P)"
  using assms
  by (auto simp: dynamics_def inverse_dynamics_def Let_def field_simps
      split: if_splits option.splits)

lemma inverse_dynamics_unit_inertia:
  assumes "L P * m P = 1"
  shows "\<exists>dd. dynamics P theta dtheta u = Inr dd \<and> inverse_dynamics P theta dtheta dd = u"
  using assms by (simp add: dynamics_def inverse_dynamics_def Let_def)

lemma dynamics_zero_inertia:
  assumes "L P * m P = 0"
  shows "dynamics P theta dtheta u = Inl ZeroDivisionError"
  using assms by (simp add: dynamics_def)

section \<open>The claims\<close>

text \<open>
  Claim C1. For every model and all \<open>\<theta>\<close>, \<open>\<theta>'\<close>, \<open>u\<close>, \<open>inverse_dynamics\<close> applied to the
  acceleration that \<open>dynamics\<close> computes from \<open>u\<close> gives \<open>u\<close> back. The code does not do
  that: with \<open>m = 2\<close>, \<open>L = 1\<close>, \<open>g = 9.8\<close>, no viscosity, at \<open>\<theta> = 0\<close>, \<open>\<theta>' = 0\<close> and
  \<open>u = 0\<close> the forward dynamics give \<open>-9.8\<close>, and the inverse dynamics of \<open>-9.8\<close> are
  \<open>19.6\<close>, not \<open>0\<close>.
\<close>

theorem inverse_dynamics_roundtrip_fails:
  "dynamics (init 2 1 9.8) 0 0 0 = Inr (- 9.8) \<and>
   inverse_dynamics (init 2 1 9.8) 0 0 (- 9.8) = 19.6 \<and>
   inverse_dynamics (init 2 1 9.8) 0 0 (- 9.8) \<noteq> 0"
  by (simp add: dynamics_def inverse_dynamics_def init_def)

text \<open>
  Claim C2, as stated: every \<open>q\<close> recorded in a trace of \<open>simulate\<close> lies in \<open>[0, 2\<pi>)\<close>.
  The first recorded \<open>q\<close> is the initial angle itself, which the loop records before any
  wrapping: started at \<open>q0 = -1\<close> with step 1 and horizon 1, the trace records \<open>q = -1\<close>.
\<close>

theorem simulate_first_q_unwrapped:
  "(0::real) < 1 \<and>
   simulate default_pendulum (- 1) 0 zero_policy 1 1 =
     Some (Inr \<lparr>res_t = [0], res_x = [[- 1, 0]], res_q = [- 1], res_dq = [0], res_u = [0],
                res_ddq = [- (cos 1 * 9.8)]\<rparr>) \<and>
   \<not> (0 \<le> (- 1 :: real))"
  by (simp add: simulate_def simulate_loop_unfold simulate_loop_exit dynamics_def
      clamp_spec_def record_sample_def empty_trace_def default_pendulum_def
      init_def zero_policy_def)

text \<open>
  Claim C2, amended. With a positive step and \<open>L*m \<noteq> 0\<close>, \<open>simulate\<close> returns a trace. In
  every trace it returns, the first recorded \<open>q\<close> (when there is one) is the initial angle
  \<open>q0\<close> as it was given, and every later recorded \<open>q\<close> is the remainder modulo \<open>2\<pi>\<close> of
  the previous angle advanced by \<open>dt\<close> times the previous velocity. For whatever remainder
  operation keeps its result between 0 and the divisor, both included, as the float
  remainder of a finite number does, every later recorded \<open>q\<close> lies in the closed interval
  \<open>[0, 2\<pi>]\<close>, and so does every recorded \<open>q\<close> when \<open>q0\<close> does.
\<close>

theorem simulate_later_q_in_range:
  assumes "rem_in_range md"
  shows "(0 < dt \<and> L P * m P \<noteq> 0 \<longrightarrow>
            (\<exists>res. simulate_rem md P q0 dq0 ufunc dt T = Some (Inr res))) \<and>
         (\<forall>res. simulate_rem md P q0 dq0 ufunc dt T = Some (Inr res) \<longrightarrow>
            (res_q res \<noteq> [] \<longrightarrow> hd (res_q res) = q0) \<and>
            (\<forall>i. Suc i < length (res_q res) \<longrightarrow>
                 res_q res ! Suc i = md (res_q res ! i + dt * res_dq res ! i) (pi * 2)) \<and>
            (\<forall>a\<in>set (tl (res_q res)). 0 \<le> a \<and> a \<le> 2 * pi) \<and>
            (0 \<le> q0 \<and> q0 \<le> 2 * pi \<longrightarrow> (\<forall>a\<in>set (res_q res). 0 \<le> a \<and> a \<le> 2 * pi)))"
proof (intro conjI allI impI)
  assume "0 < dt \<and> L P * m P \<noteq> 0"
  then show "\<exists>res. simulate_rem md P q0 dq0 ufunc dt T = Some (Inr res)"
    unfolding simulate_rem_def by (simp add: simulate_loop_rem_returns)
next
  fix res
  assume run: "simulate_rem md P q0 dq0 ufunc dt T = Some (Inr res)"
  then obtain ss where res: "res = add_samples empty_trace ss"
    and chain: "euler_chain md P ufunc dt T 0 q0 dq0 ss"
    unfolding simulate_rem_def by (blast dest: simulate_loop_rem_chain)
  from res have qs: "res_q res = map s_q ss" and dqs: "res_dq res = map s_dq ss"
    by (simp_all add: add_samples_def empty_trace_def)
  show first: "hd (res_q res) = q0" if "res_q res \<noteq> []"
  proof -
    from that qs have "ss \<noteq> []" by auto
    with euler_chain_first [OF chain] qs show ?thesis by (simp add: hd_map hd_conv_nth)
  qed
  show link: "res_q res ! Suc i = md (res_q res ! i + dt * res_dq res ! i) (pi * 2)"
    if "Suc i < length (res_q res)" for i
  proof -
    from that qs have "Suc i < length ss" by simp
    with euler_chain_link [OF chain] qs dqs show ?thesis by simp
  qed
  show later: "\<forall>a\<in>set (tl (res_q res)). 0 \<le> a \<and> a \<le> 2 * pi"
  proof
    fix a
    assume "a \<in> set (tl (res_q res))"
    then obtain j where j: "j < length (tl (res_q res))" and a: "a = tl (res_q res) ! j"
      by (auto simp: in_set_conv_nth)
    from j have "Suc j < length (res_q res)" by simp
    with a j link have "a = md (res_q res ! j + dt * res_dq res ! j) (pi * 2)"
      by (simp add: nth_tl)
    with rem_two_pi [OF assms] show "0 \<le> a \<and> a \<le> 2 * pi" by simp
  qed
  show "\<forall>a\<in>set (res_q res). 0 \<le> a \<and> a \<le> 2 * pi" if "0 \<le> q0 \<and> q0 \<le> 2 * pi"
  proof (cases "res_q res")
    case Nil
    then show ?thesis by simp
  next
    case (Cons b bs)
    with first later that show ?thesis by simp
  qed
qed

theorem simulate_later_q_in_range_witness:
  "rem_in_range py_mod \<and> (0::real) < 1 \<and> L default_pendulum * m default_pendulum \<noteq> 0 \<and>
   simulate_rem py_mod default_pendulum 0 (- 1) zero_policy 1 2 = Some (Inr wrapping_trace) \<and>
   res_q wrapping_trace = [0, 2 * pi - 1] \<and>
   res_q wrapping_trace ! Suc 0 =
     py_mod (res_q wrapping_trace ! 0 + 1 * res_dq wrapping_trace ! 0) (pi * 2) \<and>
   0 \<le> 2 * pi - 1 \<and> 2 * pi - 1 \<le> 2 * pi"
  using simulate_later_q_in_range [OF py_mod_in_range, of 1 default_pendulum 0 "- 1" zero_policy 2]
    simulate_wrapping_run py_mod_in_range
  by (simp add: default_pendulum_def init_def wrapping_trace_def py_mod_neg_one)

text \<open>
  Claim C3. With a positive step and \<open>L*m \<noteq> 0\<close>, \<open>simulate\<close> returns a trace. In every
  trace it returns, whatever the policy answers, every recorded \<open>u\<close> is at most \<open>umax\<close> when
  \<open>umax\<close> is set, and at least \<open>umin\<close> when \<open>umin\<close> is set and is not above a set \<open>umax\<close>.
\<close>

theorem simulate_u_clamped:
  "(0 < dt \<and> L P * m P \<noteq> 0 \<longrightarrow> (\<exists>res. simulate P q0 dq0 ufunc dt T = Some (Inr res))) \<and>
   (\<forall>res. simulate P q0 dq0 ufunc dt T = Some (Inr res) \<longrightarrow>
      (\<forall>u\<in>set (res_u res).
         (\<forall>hi. umax P = Some hi \<longrightarrow> u \<le> hi) \<and>
         (\<forall>lo. umin P = Some lo \<longrightarrow> (\<forall>hi. umax P = Some hi \<longrightarrow> lo \<le> hi) \<longrightarrow> lo \<le> u)))"
proof (intro conjI allI impI ballI)
  assume "0 < dt \<and> L P * m P \<noteq> 0"
  then show "\<exists>res. simulate P q0 dq0 ufunc dt T = Some (Inr res)"
    unfolding simulate_def by (simp add: simulate_loop_returns)
next
  fix res u hi
  assume "simulate P q0 dq0 ufunc dt T = Some (Inr res)" and "u \<in> set (res_u res)"
  then have "within_bounds P u" by (rule simulate_u_within_bounds)
  moreover assume "umax P = Some hi"
  ultimately show "u \<le> hi" by (simp add: within_bounds_def)
next
  fix res u lo
  assume "simulate P q0 dq0 ufunc dt T = Some (Inr res)" and "u \<in> set (res_u res)"
  then have "within_bounds P u" by (rule simulate_u_within_bounds)
  moreover assume "umin P = Some lo" and "\<forall>hi. umax P = Some hi \<longrightarrow> lo \<le> hi"
  ultimately show "lo \<le> u"
    by (cases "umax P") (auto simp: within_bounds_def)
qed

theorem simulate_u_clamped_witness:
  "(0::real) < 1 \<and> L bounded_pendulum * m bounded_pendulum \<noteq> 0 \<and>
   five_policy 0 0 0 = 5 \<and>
   simulate bounded_pendulum 0 0 five_policy 1 1 =
     Some (Inr \<lparr>res_t = [0], res_x = [[0, 0]], res_q = [0], res_dq = [0], res_u = [1],
                res_ddq = [- 8.8]\<rparr>) \<and>
   umin bounded_pendulum = Some (- 1) \<and> umax bounded_pendulum = Some 1 \<and>
   - 1 \<le> (1::real) \<and> (1::real) \<le> 1"
  using simulate_u_clamped [of 1 bounded_pendulum 0 0 five_policy 1] simulate_bounded_run
  by (simp add: bounded_pendulum_def default_pendulum_def init_def five_policy_def)

text \<open>
  The instance of C3 named in the claim: with \<open>umin = -1\<close> and \<open>umax = 1\<close> every recorded
  \<open>u\<close> lies in \<open>[-1, 1]\<close>.
\<close>

lemma simulate_u_unit_interval:
  assumes "umin P = Some (- 1)" and "umax P = Some 1"
    and "simulate P q0 dq0 ufunc dt T = Some (Inr res)" and "u \<in> set (res_u res)"
  shows "- 1 \<le> u \<and> u \<le> 1"
  using simulate_u_within_bounds [OF assms(3,4)] assms(1,2)
  by (simp add: within_bounds_def)

text \<open>
  Claim C4. For a model with \<open>L*m \<noteq> 0\<close>, \<open>dynamics\<close> raises nothing and returns
  \<open>(u + visc - m*cos(\<theta>)*g) / (L*m)\<close>, where \<open>visc\<close> is \<open>-viscosity*\<theta>'\<close> when the viscosity
  is set and 0 when it is not.
\<close>

theorem forward_dynamics_law:
  assumes "L P * m P \<noteq> 0"
  shows "dynamics P theta dtheta u =
           Inr ((u + (case viscosity P of None \<Rightarrow> 0 | Some k \<Rightarrow> - k * dtheta)
                   - m P * cos theta * g P) / (L P * m P))"
  using assms by (simp add: dynamics_def)

theorem forward_dynamics_law_witness:
  "L (default_pendulum\<lparr>viscosity := Some 2\<rparr>) * m (default_pendulum\<lparr>viscosity := Some 2\<rparr>) \<noteq> 0 \<and>
   dynamics (default_pendulum\<lparr>viscosity := Some 2\<rparr>) 0 3 1 = Inr (- 14.8)"
  using forward_dynamics_law [of "default_pendulum\<lparr>viscosity := Some 2\<rparr>" 0 3 1]
  by (simp add: default_pendulum_def init_def)

text \<open>
  Claim C5. For every model, \<open>inverse_dynamics\<close> returns
  \<open>L*m*(\<theta>'' - visc + m*cos(\<theta>)*g)\<close>, with \<open>visc\<close> as in the forward dynamics; it is a
  total function of the model and its three arguments.
\<close>

theorem inverse_dynamics_law:
  "inverse_dynamics P theta dtheta ddtheta =
     L P * m P * (ddtheta - (case viscosity P of None \<Rightarrow> 0 | Some k \<Rightarrow> - k * dtheta)
                   + m P * cos theta * g P)"
  by (simp add: inverse_dynamics_def)

text \<open>
  Claim C6. On a state \<open>x\<close> of two elements and a control \<open>u\<close> that is a number or a
  sequence of one number, \<open>derivative\<close> returns the pair of \<open>x[1]\<close> and the forward dynamics
  at \<open>x[0]\<close>, \<open>x[1]\<close> and the number in \<open>u\<close> (an exception of \<open>dynamics\<close> is passed on); so
  whatever it returns has two components, the first equal to \<open>x[1]\<close>.
\<close>

theorem derivative_value:
  assumes "length x = 2"
    and "case u of Scalar v \<Rightarrow> True | Seq us \<Rightarrow> length us = 1"
  shows "derivative P x u =
           (case dynamics P (x ! 0) (x ! 1) (case u of Scalar v \<Rightarrow> v | Seq us \<Rightarrow> us ! 0) of
              Inl e \<Rightarrow> Inl e
            | Inr ddq \<Rightarrow> Inr [x ! 1, ddq]) \<and>
         (\<forall>y. derivative P x u = Inr y \<longrightarrow> length y = 2 \<and> y ! 0 = x ! 1)"
  using assms by (auto simp: derivative_def Let_def split: sum.splits)

theorem derivative_value_witness:
  "length [0, 4 :: real] = 2 \<and>
   derivative default_pendulum [0, 4] (Seq [2]) = Inr [4, - 7.8] \<and>
   derivative default_pendulum [0, 4] (Scalar 2) = Inr [4, - 7.8]"
  using derivative_value [of "[0, 4]" "Seq [2]" default_pendulum]
    derivative_value [of "[0, 4]" "Scalar 2" default_pendulum]
  by (simp add: dynamics_def default_pendulum_def init_def)

text \<open>
  Claim C7. An iteration of the loop of \<open>simulate\<close>, entered with \<open>t < T\<close>: the policy is
  asked at \<open>(t, q, dq)\<close>, its answer is clamped by the bounds that are set, \<open>ddq\<close> is the
  forward dynamics at \<open>(q, dq, u)\<close> (whose exception ends the loop), the sample
  \<open>(t, q, dq, ddq, x=(q,dq), u)\<close> of the values before the update goes to the end of the
  trace, and the loop goes on from \<open>t + dt\<close>, \<open>q + dt*dq\<close> reduced modulo \<open>2\<pi>\<close>, and
  \<open>dq + dt*ddq\<close>. In the trace that \<open>simulate\<close> returns this reads as follows. The six
  lists have one entry per iteration. The first sample holds time 0 and the initial state.
  Every sample has \<open>t < T\<close>, holds the clamped answer of the policy at its own \<open>t\<close>, \<open>q\<close>,
  \<open>dq\<close>, the forward dynamics at its own \<open>q\<close>, \<open>dq\<close>, \<open>u\<close>, and \<open>x = (q, dq)\<close>. Every
  sample but the first comes from the one before it by \<open>t + dt\<close>, the remainder of
  \<open>q + dt*dq\<close> modulo \<open>2\<pi>\<close> and \<open>dq + dt*ddq\<close>. The time after the last sample is not
  below \<open>T\<close>. With a positive step and \<open>L*m \<noteq> 0\<close> a trace is returned. The remainder
  operation \<open>md\<close> is any one.
\<close>

theorem simulate_iteration:
  "(t < T \<longrightarrow>
      simulate_loop_rem md P ufunc dt T t q dq res0 =
        (let u = clamp_spec (umin P) (umax P) (ufunc t q dq)
         in case dynamics P q dq u of
              Inl e \<Rightarrow> Some (Inl e)
            | Inr ddq \<Rightarrow>
                simulate_loop_rem md P ufunc dt T (t + dt) (md (q + dt * dq) (pi * 2))
                  (dq + dt * ddq)
                  \<lparr>res_t = res_t res0 @ [t], res_x = res_x res0 @ [[q, dq]],
                   res_q = res_q res0 @ [q], res_dq = res_dq res0 @ [dq],
                   res_u = res_u res0 @ [u], res_ddq = res_ddq res0 @ [ddq]\<rparr>)) \<and>
   (0 < dt \<and> L P * m P \<noteq> 0 \<longrightarrow>
      (\<exists>res. simulate_rem md P q0 dq0 ufunc dt T = Some (Inr res))) \<and>
   (\<forall>res. simulate_rem md P q0 dq0 ufunc dt T = Some (Inr res) \<longrightarrow>
      (\<exists>n. length (res_t res) = n \<and> length (res_x res) = n \<and> length (res_q res) = n \<and>
           length (res_dq res) = n \<and> length (res_u res) = n \<and> length (res_ddq res) = n \<and>
           (0 < n \<longrightarrow> res_t res ! 0 = 0 \<and> res_q res ! 0 = q0 \<and> res_dq res ! 0 = dq0) \<and>
           (\<forall>i<n. res_t res ! i < T \<and>
                  res_u res ! i =
                    clamp_spec (umin P) (umax P)
                      (ufunc (res_t res ! i) (res_q res ! i) (res_dq res ! i)) \<and>
                  dynamics P (res_q res ! i) (res_dq res ! i) (res_u res ! i) =
                    Inr (res_ddq res ! i) \<and>
                  res_x res ! i = [res_q res ! i, res_dq res ! i]) \<and>
           (\<forall>i. Suc i < n \<longrightarrow>
                  res_t res ! Suc i = res_t res ! i + dt \<and>
                  res_q res ! Suc i = md (res_q res ! i + dt * res_dq res ! i) (pi * 2) \<and>
                  res_dq res ! Suc i = res_dq res ! i + dt * res_ddq res ! i) \<and>
           \<not> (if n = 0 then 0 else res_t res ! (n - 1) + dt) < T))"
proof (intro conjI allI impI)
  assume "t < T"
  then show "simulate_loop_rem md P ufunc dt T t q dq res0 =
        (let u = clamp_spec (umin P) (umax P) (ufunc t q dq)
         in case dynamics P q dq u of
              Inl e \<Rightarrow> Some (Inl e)
            | Inr ddq \<Rightarrow>
                simulate_loop_rem md P ufunc dt T (t + dt) (md (q + dt * dq) (pi * 2))
                  (dq + dt * ddq)
                  \<lparr>res_t = res_t res0 @ [t], res_x = res_x res0 @ [[q, dq]],
                   res_q = res_q res0 @ [q], res_dq = res_dq res0 @ [dq],
                   res_u = res_u res0 @ [u], res_ddq = res_ddq res0 @ [ddq]\<rparr>)"
    by (simp add: simulate_loop_rem_unfold record_sample_def Let_def split: sum.splits)
next
  assume "0 < dt \<and> L P * m P \<noteq> 0"
  then show "\<exists>res. simulate_rem md P q0 dq0 ufunc dt T = Some (Inr res)"
    unfolding simulate_rem_def by (simp add: simulate_loop_rem_returns)
next
  fix res
  assume "simulate_rem md P q0 dq0 ufunc dt T = Some (Inr res)"
  then obtain ss where res: "res = add_samples empty_trace ss"
    and chain: "euler_chain md P ufunc dt T 0 q0 dq0 ss"
    unfolding simulate_rem_def by (blast dest: simulate_loop_rem_chain)
  from res have fields: "res_t res = map s_t ss" "res_q res = map s_q ss"
    "res_dq res = map s_dq ss" "res_u res = map s_u ss" "res_ddq res = map s_ddq ss"
    "res_x res = map (\<lambda>s. [s_q s, s_dq s]) ss"
    by (simp_all add: add_samples_def empty_trace_def)
  have shape: "length (res_t res) = length ss" "length (res_x res) = length ss"
    "length (res_q res) = length ss" "length (res_dq res) = length ss"
    "length (res_u res) = length ss" "length (res_ddq res) = length ss"
    by (simp_all add: fields)
  have first: "res_t res ! 0 = 0 \<and> res_q res ! 0 = q0 \<and> res_dq res ! 0 = dq0"
    if "0 < length ss"
  proof -
    from that have "ss \<noteq> []" by auto
    from euler_chain_first [OF chain this] that show ?thesis by (simp add: fields)
  qed
  have each: "res_t res ! i < T \<and>
      res_u res ! i =
        clamp_spec (umin P) (umax P) (ufunc (res_t res ! i) (res_q res ! i) (res_dq res ! i)) \<and>
      dynamics P (res_q res ! i) (res_dq res ! i) (res_u res ! i) = Inr (res_ddq res ! i) \<and>
      res_x res ! i = [res_q res ! i, res_dq res ! i]"
    if "i < length ss" for i
    using euler_chain_nth [OF chain that] that by (auto simp: fields)
  have link: "res_t res ! Suc i = res_t res ! i + dt \<and>
      res_q res ! Suc i = md (res_q res ! i + dt * res_dq res ! i) (pi * 2) \<and>
      res_dq res ! Suc i = res_dq res ! i + dt * res_ddq res ! i"
    if "Suc i < length ss" for i
    using euler_chain_link [OF chain that] that by (simp add: fields)
  have stop: "\<not> (if length ss = 0 then 0 else res_t res ! (length ss - 1) + dt) < T"
  proof (cases "ss = []")
    case True
    with euler_chain_end [OF chain] show ?thesis by simp
  next
    case False
    then have "length ss - 1 < length ss" by simp
    then have "res_t res ! (length ss - 1) = s_t (ss ! (length ss - 1))"
      by (simp add: fields)
    with euler_chain_end [OF chain] False show ?thesis by simp
  qed
  from shape first each link stop
  show "\<exists>n. length (res_t res) = n \<and> length (res_x res) = n \<and> length (res_q res) = n \<and>
           length (res_dq res) = n \<and> length (res_u res) = n \<and> length (res_ddq res) = n \<and>
           (0 < n \<longrightarrow> res_t res ! 0 = 0 \<and> res_q res ! 0 = q0 \<and> res_dq res ! 0 = dq0) \<and>
           (\<forall>i<n. res_t res ! i < T \<and>
                  res_u res ! i =
                    clamp_spec (umin P) (umax P)
                      (ufunc (res_t res ! i) (res_q res ! i) (res_dq res ! i)) \<and>
                  dynamics P (res_q res ! i) (res_dq res ! i) (res_u res ! i) =
                    Inr (res_ddq res ! i) \<and>
                  res_x res ! i = [res_q res ! i, res_dq res ! i]) \<and>
           (\<forall>i. Suc i < n \<longrightarrow>
                  res_t res ! Suc i = res_t res ! i + dt \<and>
                  res_q res ! Suc i = md (res_q res ! i + dt * res_dq res ! i) (pi * 2) \<and>
                  res_dq res ! Suc i = res_dq res ! i + dt * res_ddq res ! i) \<and>
           \<not> (if n = 0 then 0 else res_t res ! (n - 1) + dt) < T"
    by (intro exI [of _ "length ss"]) blast
qed

theorem simulate_iteration_witness:
  "(0::real) < 2 \<and> (0::real) < 1 \<and> L default_pendulum * m default_pendulum \<noteq> 0 \<and>
   simulate_rem py_mod default_pendulum 0 (- 1) zero_policy 1 2 = Some (Inr wrapping_trace) \<and>
   length (res_t wrapping_trace) = 2 \<and>
   res_t wrapping_trace ! Suc 0 = res_t wrapping_trace ! 0 + 1 \<and>
   res_q wrapping_trace ! Suc 0 =
     py_mod (res_q wrapping_trace ! 0 + 1 * res_dq wrapping_trace ! 0) (pi * 2) \<and>
   res_q wrapping_trace ! Suc 0 = 2 * pi - 1 \<and>
   res_dq wrapping_trace ! Suc 0 = res_dq wrapping_trace ! 0 + 1 * res_ddq wrapping_trace ! 0 \<and>
   res_dq wrapping_trace ! Suc 0 = - 10.8 \<and>
   \<not> res_t wrapping_trace ! Suc 0 + 1 < (2::real)"
  using simulate_iteration
      [of 0 2 py_mod default_pendulum zero_policy 1 0 "- 1" empty_trace 0 "- 1"]
    simulate_wrapping_run
  by (simp add: default_pendulum_def init_def wrapping_trace_def py_mod_neg_one)

text \<open>
  Claim C8. For the model \<open>m = 1\<close>, \<open>L = 1\<close>, \<open>g = 9.8\<close> with nothing else set,
  \<open>simulate\<close> from \<open>q0 = 0\<close>, \<open>dq0 = 0\<close> under the zero policy with \<open>dt = 0.01\<close> and
  \<open>T = 0.05\<close> returns a trace of 5 samples, the first with \<open>t = 0\<close>, \<open>q = 0\<close>, \<open>dq = 0\<close>,
  \<open>u = 0\<close> and \<open>ddq = dynamics(0,0,0) = -9.8\<close>.
\<close>

theorem simulate_concrete_scenario:
  "\<exists>res. simulate default_pendulum 0 0 zero_policy 0.01 0.05 = Some (Inr res) \<and>
      length (res_t res) = 5 \<and> length (res_x res) = 5 \<and> length (res_q res) = 5 \<and>
      length (res_dq res) = 5 \<and> length (res_u res) = 5 \<and> length (res_ddq res) = 5 \<and>
      res_t res ! 0 = 0 \<and> res_q res ! 0 = 0 \<and> res_dq res ! 0 = 0 \<and> res_u res ! 0 = 0 \<and>
      res_x res ! 0 = [0, 0] \<and> res_ddq res ! 0 = - 9.8 \<and>
      dynamics default_pendulum 0 0 0 = Inr (- 9.8)"
proof -
  let ?P = default_pendulum
  let ?loop = "simulate_loop ?P zero_policy 0.01 0.05"
  have nz: "L ?P * m ?P \<noteq> 0" by (simp add: default_pendulum_def init_def)
  define r1 where "r1 = record_sample empty_trace 0 0 0 (- 9.8) 0"
  have s1: "simulate ?P 0 0 zero_policy 0.01 0.05 = ?loop 0.01 0 (- 0.098) r1"
    by (simp add: simulate_def simulate_loop_unfold dynamics_def clamp_spec_def r1_def
        default_pendulum_def init_def zero_policy_def py_mod_def)
  from simulate_loop_advance [OF _ nz, of "0.01" "0.05" zero_policy "0.01" 0 "- 0.098" r1]
  obtain q2 dq2 a2 u2 where
    s2: "?loop 0.01 0 (- 0.098) r1 = ?loop 0.02 q2 dq2 (record_sample r1 0.01 0 (- 0.098) a2 u2)"
    by auto
  define r2 where "r2 = record_sample r1 0.01 0 (- 0.098) a2 u2"
  from simulate_loop_advance [OF _ nz, of "0.02" "0.05" zero_policy "0.01" q2 dq2 r2]
  obtain q3 dq3 a3 u3 where
    s3: "?loop 0.02 q2 dq2 r2 = ?loop 0.03 q3 dq3 (record_sample r2 0.02 q2 dq2 a3 u3)"
    by auto
  define r3 where "r3 = record_sample r2 0.02 q2 dq2 a3 u3"
  from simulate_loop_advance [OF _ nz, of "0.03" "0.05" zero_policy "0.01" q3 dq3 r3]
  obtain q4 dq4 a4 u4 where
    s4: "?loop 0.03 q3 dq3 r3 = ?loop 0.04 q4 dq4 (record_sample r3 0.03 q3 dq3 a4 u4)"
    by auto
  define r4 where "r4 = record_sample r3 0.03 q3 dq3 a4 u4"
  from simulate_loop_advance [OF _ nz, of "0.04" "0.05" zero_policy "0.01" q4 dq4 r4]
  obtain q5 dq5 a5 u5 where
    s5: "?loop 0.04 q4 dq4 r4 = ?loop 0.05 q5 dq5 (record_sample r4 0.04 q4 dq4 a5 u5)"
    by auto
  define r5 where "r5 = record_sample r4 0.04 q4 dq4 a5 u5"
  have s6: "?loop 0.05 q5 dq5 r5 = Some (Inr r5)"
    by (simp add: simulate_loop_exit)
  have run: "simulate ?P 0 0 zero_policy 0.01 0.05 = Some (Inr r5)"
    using s1 s2 s3 s4 s5 s6 by (simp add: r2_def r3_def r4_def r5_def)
  have shape: "length (res_t r5) = 5" "length (res_x r5) = 5" "length (res_q r5) = 5"
    "length (res_dq r5) = 5" "length (res_u r5) = 5" "length (res_ddq r5) = 5"
    by (simp_all add: r5_def r4_def r3_def r2_def r1_def record_sample_def empty_trace_def)
  have first: "res_t r5 ! 0 = 0" "res_q r5 ! 0 = 0" "res_dq r5 ! 0 = 0" "res_u r5 ! 0 = 0"
    "res_x r5 ! 0 = [0, 0]" "res_ddq r5 ! 0 = - 9.8"
    by (simp_all add: r5_def r4_def r3_def r2_def r1_def record_sample_def empty_trace_def)
  have dyn: "dynamics ?P 0 0 0 = Inr (- 9.8)"
    by (simp add: dynamics_def default_pendulum_def init_def)
  from run shape first dyn show ?thesis by blast
qed

text \<open>
  Claim C9. \<open>derivative\<close> raises \<open>AssertionError\<close> exactly when \<open>x\<close> does not have two
  elements or \<open>u\<close> is neither a number nor a sequence of one number. The exception is its
  whole outcome (\<open>Inl\<close>, no value), and on an input that meets the contract it is not
  raised.
\<close>

theorem derivative_assertion_iff:
  "derivative P x u = Inl AssertionError \<longleftrightarrow>
     length x \<noteq> 2 \<or> \<not> (case u of Scalar v \<Rightarrow> True | Seq us \<Rightarrow> length us = 1)"
  by (auto simp: derivative_def dynamics_def Let_def split: sum.splits control.splits if_splits)

theorem derivative_assertion_iff_witness:
  "derivative default_pendulum [0] (Scalar 0) = Inl AssertionError \<and>
   derivative default_pendulum [0, 0] (Seq []) = Inl AssertionError \<and>
   derivative default_pendulum [0, 0] (Seq [1, 2]) = Inl AssertionError \<and>
   derivative default_pendulum [0, 0] (Seq [0]) \<noteq> Inl AssertionError"
  using derivative_assertion_iff [of default_pendulum "[0]" "Scalar 0"]
    derivative_assertion_iff [of default_pendulum "[0, 0]" "Seq []"]
    derivative_assertion_iff [of default_pendulum "[0, 0]" "Seq [1, 2]"]
    derivative_assertion_iff [of default_pendulum "[0, 0]" "Seq [0]"]
  by simp

text \<open>
  Claim C10, as stated: on every state \<open>x\<close> and perturbation \<open>dx\<close> of two elements,
  \<open>integrate\<close> returns the elementwise sum with the angle wrapped, and cannot fail. On two
  Python lists \<open>x+dx\<close> is their concatenation: \<open>integrate([0, 5], [-1, 2])\<close> is the list
  \<open>[0.0, 5, -1, 2]\<close> of four elements.
\<close>

theorem integrate_lists_concatenate:
  "integrate default_pendulum (PyList [PyInt 0, PyInt 5]) (PyList [PyInt (- 1), PyInt 2]) =
     Inr (PyList [PyFloat 0, PyInt 5, PyInt (- 1), PyInt 2])"
  by (simp add: integrate_def integrate_rem_def py_mod_def)

text \<open>
  Two further ways in which \<open>integrate\<close> departs from the elementwise sum of two-element
  states: on tuples the assignment to index 0 raises \<open>TypeError\<close>, and on integer arrays
  the wrapped angle is stored without its fractional part.
\<close>

lemma integrate_tuples_raise:
  "integrate_rem md P (PyTuple [a, b]) (PyTuple [c, d]) = Inl TypeError"
  by (simp add: integrate_rem_def)

lemma integrate_int_arrays_truncate:
  "integrate default_pendulum (IntArray [0, 5]) (IntArray [- 1, 2]) =
     Inr (IntArray [\<lfloor>2 * pi - 1\<rfloor>, 7])"
proof -
  have "0 \<le> 2 * pi - 1" using pi_ge_two by simp
  then show ?thesis
    by (simp add: integrate_def integrate_rem_def broadcast_add_def trunc_def py_mod_neg_one)
qed

text \<open>
  Claim C10, amended. On two float arrays \<open>x\<close> and \<open>dx\<close> of two elements each,
  \<open>integrate\<close> raises nothing and returns the float array of the remainder of
  \<open>x[0] + dx[0]\<close> modulo \<open>2\<pi>\<close> and of \<open>x[1] + dx[1]\<close>. For whatever remainder operation
  keeps its result between 0 and the divisor, both included, as the float remainder of a
  finite number does, the first component lies in the closed interval \<open>[0, 2\<pi>]\<close>.
\<close>

theorem integrate_float_arrays:
  assumes "rem_in_range md" and "length a = 2" and "length b = 2"
  shows "integrate_rem md P (FloatArray a) (FloatArray b) =
           Inr (FloatArray [md (a ! 0 + b ! 0) (pi * 2), a ! 1 + b ! 1]) \<and>
         0 \<le> md (a ! 0 + b ! 0) (pi * 2) \<and> md (a ! 0 + b ! 0) (pi * 2) \<le> 2 * pi"
proof -
  from assms(2) obtain a0 a1 where a: "a = [a0, a1]"
    by (cases a; cases "tl a") auto
  from assms(3) obtain b0 b1 where b: "b = [b0, b1]"
    by (cases b; cases "tl b") auto
  from rem_two_pi [OF assms(1), of "a0 + b0"] show ?thesis
    by (simp add: a b integrate_rem_def broadcast_add_def)
qed

theorem integrate_float_arrays_witness:
  "rem_in_range py_mod \<and> length [0, 5 :: real] = 2 \<and> length [- 1, 2 :: real] = 2 \<and>
   integrate_rem py_mod default_pendulum (FloatArray [0, 5]) (FloatArray [- 1, 2]) =
     Inr (FloatArray [2 * pi - 1, 7]) \<and>
   0 \<le> 2 * pi - 1 \<and> 2 * pi - 1 \<le> 2 * pi"
  using integrate_float_arrays [OF py_mod_in_range, of "[0, 5]" "[- 1, 2]" default_pendulum]
    py_mod_in_range
  by (simp add: py_mod_neg_one)

end
